theory Spec2Isabelle
  imports Main "HOL-Library.Monad_Syntax"
begin

section \<open>The OpenAPI normalizer of API Visualizer\<close>

text \<open>
  A shallow embedding of \<^verbatim>\<open>src/utils/openApiParser.ts\<close> and of the unified model of
  \<^verbatim>\<open>src/types/api.ts\<close>.

  Conventions of the embedding.
  \<^item> A parsed document is what \<^verbatim>\<open>JSON.parse\<close> or \<^verbatim>\<open>yaml.load\<close> returns: \<^verbatim>\<open>null\<close> or
    \<^verbatim>\<open>undefined\<close> (the text \<^verbatim>\<open>null\<close>, an empty text), or a tree of mappings. Every field of
    every source interface may be missing, whatever the TypeScript interface declares, so
    every field of a source record is an \<open>option\<close>; \<open>None\<close> stands for \<^verbatim>\<open>undefined\<close> and for
    \<^verbatim>\<open>null\<close>, which every test of the parser treats alike. A field that is present and
    not null has the type its interface declares.
  \<^item> A \<^verbatim>\<open>Record<string, T>\<close> is the association list that \<^verbatim>\<open>Object.entries\<close> yields, in
    that order. The values of the mappings and the members of the lists that the parser
    walks (path items, parameters, responses, media types, component schemas, security
    schemes, security requirements) may be \<^verbatim>\<open>null\<close>: they are \<open>option\<close>s, and reading a
    property of one that is \<open>None\<close> throws a TypeError. Schema nodes nested in a schema node
    are not null.
  \<^item> Values of TypeScript type \<^verbatim>\<open>unknown\<close> (examples, enum members) are only ever copied.
    They are JavaScript values, among them \<^verbatim>\<open>NaN\<close>, which no JSON text denotes.
  \<^item> A thrown exception, and so a rejected promise of the \<^verbatim>\<open>async\<close> entry point, is the
    left injection of a sum type.
  \<^item> \<^verbatim>\<open>JSON.parse\<close>, \<^verbatim>\<open>yaml.load\<close> and \<^verbatim>\<open>JSON.stringify\<close> are library functions; they are
    parameters. A parser returns \<open>None\<close> where the library throws, \<open>Some None\<close> where it
    returns \<^verbatim>\<open>null\<close> or \<^verbatim>\<open>undefined\<close>, and \<open>Some (Some d)\<close> where it returns a mapping.
\<close>

subsection \<open>Source document (the interfaces of openApiParser.ts)\<close>

text \<open>A JavaScript value of type \<^verbatim>\<open>unknown\<close>. \<open>JNumber\<close> is a finite number (whole numbers
  are enough here) and \<open>JNaN\<close> the number \<^verbatim>\<open>NaN\<close>.\<close>

datatype unknown =
    JNull
  | JBoolean bool
  | JNumber int
  | JNaN
  | JString string
  | JArray "unknown list"
  | JObject "(string \<times> unknown) list"

datatype OpenAPISchema = OpenAPISchema
  (os_type: "string option")
  (os_format: "string option")
  (os_description: "string option")
  (os_properties: "(string \<times> OpenAPISchema) list option")
  (os_items: "OpenAPISchema option")
  (os_required: "string list option")
  (os_enum: "unknown list option")
  (os_example: "unknown option")
  (os_ref: "string option")
  (os_nullable: "bool option")
  (os_oneOf: "OpenAPISchema list option")
  (os_anyOf: "OpenAPISchema list option")
  (os_allOf: "OpenAPISchema list option")

record OpenAPIParameter =
  pr_name :: "string option"
  pr_in :: "string option"
  pr_description :: "string option"
  pr_required :: "bool option"
  pr_schema :: "OpenAPISchema option"
  pr_example :: "unknown option"

record MediaContent =
  mc_schema :: "OpenAPISchema option"
  mc_example :: "unknown option"

record OperationRequestBody =
  qb_description :: "string option"
  qb_required :: "bool option"
  qb_content :: "(string \<times> MediaContent option) list option"

record OperationResponse =
  rs_description :: "string option"
  rs_content :: "(string \<times> MediaContent option) list option"

record Operation =
  op_summary :: "string option"
  op_description :: "string option"
  op_operationId :: "string option"
  op_tags :: "string list option"
  op_parameters :: "OpenAPIParameter option list option"
  op_requestBody :: "OperationRequestBody option"
  op_responses :: "(string \<times> OperationResponse option) list option"
  op_security :: "(string \<times> string list) list option list option"
  op_deprecated :: "bool option"

text \<open>
  A path item is read by key (\<^verbatim>\<open>pathItem[method]\<close>), so its operation-valued entries are
  kept as the association list of the keys found in the document, whether or not a key
  is an HTTP method; \<open>pi_parameters\<close> is the entry under the key \<^verbatim>\<open>parameters\<close>. An
  entry whose value is \<^verbatim>\<open>null\<close> is falsy, and so is skipped like a key that is not there:
  it is left out of the list.
\<close>

record PathItem =
  pi_operations :: "(string \<times> Operation) list"
  pi_parameters :: "OpenAPIParameter option list option"

record OpenAPISecurityScheme =
  ss_type :: "string option"
  ss_in :: "string option"
  ss_name :: "string option"
  ss_scheme :: "string option"
  ss_bearerFormat :: "string option"
  ss_description :: "string option"

record Info =
  in_title :: "string option"
  in_version :: "string option"
  in_description :: "string option"

record Server =
  sv_url :: "string option"
  sv_description :: "string option"

record Tag =
  tg_name :: "string option"
  tg_description :: "string option"

record Components =
  co_schemas :: "(string \<times> OpenAPISchema option) list option"
  co_securitySchemes :: "(string \<times> OpenAPISecurityScheme option) list option"

record OpenAPISpec =
  d_openapi :: "string option"
  d_swagger :: "string option"
  d_info :: "Info option"
  d_servers :: "Server list option"
  d_paths :: "(string \<times> PathItem option) list option"
  d_components :: "Components option"
  d_tags :: "Tag list option"

subsection \<open>Unified model (types/api.ts)\<close>

datatype SchemaRef = SchemaRef
  (sr_type: "string option")
  (sr_ref: "string option")
  (sr_format: "string option")
  (sr_description: "string option")
  (sr_enum: "unknown list option")
  (sr_items: "SchemaRef option")
  (sr_properties: "(string \<times> SchemaRef) list option")
  (sr_required: "string list option")
  (sr_example: "unknown option")
  (sr_nullable: "bool option")
  (sr_oneOf: "SchemaRef list option")
  (sr_anyOf: "SchemaRef list option")
  (sr_allOf: "SchemaRef list option")

record Parameter =
  p_name :: "string option"
  p_in :: "string option"
  p_description :: "string option"
  p_required :: bool
  p_schema :: SchemaRef
  p_example :: "unknown option"

record MediaType =
  mt_schema :: SchemaRef
  mt_example :: "unknown option"

record RequestBody =
  rb_description :: "string option"
  rb_required :: bool
  rb_content :: "(string \<times> MediaType) list"

record Response =
  r_statusCode :: string
  r_description :: "string option"
  r_content :: "(string \<times> MediaType) list option"

record Schema =
  sc_name :: string
  sc_type :: string
  sc_description :: "string option"
  sc_properties :: "(string \<times> SchemaRef) list option"
  sc_items :: "SchemaRef option"
  sc_required :: "string list option"
  sc_enum :: "unknown list option"
  sc_format :: "string option"
  sc_example :: "unknown option"

record SecurityScheme =
  sec_name :: string
  sec_type :: "string option"
  sec_in :: "string option"
  sec_scheme :: "string option"
  sec_bearerFormat :: "string option"
  sec_description :: "string option"

record Endpoint =
  e_id :: string
  e_path :: string
  e_method :: string
  e_summary :: "string option"
  e_description :: "string option"
  e_tags :: "string list"
  e_parameters :: "Parameter list"
  e_requestBody :: "RequestBody option"
  e_responses :: "Response list"
  e_security :: "string option list option"
  e_deprecated :: "bool option"

record ApiSpec =
  a_title :: "string option"
  a_version :: "string option"
  a_description :: "string option"
  a_servers :: "Server list option"
  a_endpoints :: "Endpoint list"
  a_schemas :: "Schema list"
  a_tags :: "Tag list"
  a_securitySchemes :: "SecurityScheme list"

subsection \<open>Errors\<close>

text \<open>
  The parser throws \<^verbatim>\<open>new Error(message)\<close> twice; the two are told apart by their
  message only. Reading a property of \<^verbatim>\<open>undefined\<close> throws the runtime's TypeError.
\<close>

datatype error = Error string | TypeError

definition ParseError :: error where
  "ParseError = Error ''Failed to parse spec: Invalid JSON or YAML''"

definition ValidationError :: error where
  "ValidationError = Error ''Invalid OpenAPI specification: missing openapi or swagger version''"

subsection \<open>JavaScript idioms\<close>

text \<open>A string is truthy when it is present and not empty.\<close>

definition truthy :: "string option \<Rightarrow> bool" where
  "truthy s = (case s of None \<Rightarrow> False | Some v \<Rightarrow> v \<noteq> [])"

text \<open>\<^verbatim>\<open>x || []\<close> and \<^verbatim>\<open>Object.entries(x || {})\<close>: arrays and objects are truthy even when
  empty, so only a missing value is replaced.\<close>

definition or_empty :: "'a list option \<Rightarrow> 'a list" where
  "or_empty x = (case x of None \<Rightarrow> [] | Some v \<Rightarrow> v)"

text \<open>Reading a property of \<^verbatim>\<open>null\<close> or \<^verbatim>\<open>undefined\<close> throws a TypeError. A function that
  reads a property of its argument is embedded on arguments that are not null, and the
  test is made where the argument is passed.\<close>

definition deref :: "'a option \<Rightarrow> error + 'a" where
  "deref x = (case x of None \<Rightarrow> Inl TypeError | Some v \<Rightarrow> Inr v)"

text \<open>Sequencing: what follows a statement runs only when the statement has not thrown.\<close>

fun and_then :: "error + 'a \<Rightarrow> ('a \<Rightarrow> error + 'b) \<Rightarrow> error + 'b" where
  "and_then (Inl e) f = Inl e"
| "and_then (Inr x) f = f x"

text \<open>\<^verbatim>\<open>xs.map(f)\<close>, and a loop that pushes \<^verbatim>\<open>f(x)\<close> for each \<^verbatim>\<open>x\<close>, where \<^verbatim>\<open>f\<close> may throw:
  the first exception ends the walk.\<close>

fun traverse :: "('a \<Rightarrow> error + 'b) \<Rightarrow> 'a list \<Rightarrow> error + 'b list" where
  "traverse f [] = Inr []"
| "traverse f (x # xs) =
     and_then (f x) (\<lambda>y. and_then (traverse f xs) (\<lambda>ys. Inr (y # ys)))"

subsection \<open>parseSchemaRef\<close>

fun parseSchemaRef :: "OpenAPISchema option \<Rightarrow> SchemaRef" where
  "parseSchemaRef None =
     SchemaRef (Some ''object'') None None None None None None None None None None None None"
| "parseSchemaRef (Some (OpenAPISchema ty fmt descr props its req en ex rf nul one any all)) =
     SchemaRef ty rf fmt descr en
       (case its of None \<Rightarrow> None | Some i \<Rightarrow> Some (parseSchemaRef (Some i)))
       (case props of None \<Rightarrow> None
        | Some ps \<Rightarrow> Some (map (\<lambda>(k, v). (k, parseSchemaRef (Some v))) ps))
       req ex nul
       (case one of None \<Rightarrow> None | Some xs \<Rightarrow> Some (map (\<lambda>x. parseSchemaRef (Some x)) xs))
       (case any of None \<Rightarrow> None | Some xs \<Rightarrow> Some (map (\<lambda>x. parseSchemaRef (Some x)) xs))
       (case all of None \<Rightarrow> None | Some xs \<Rightarrow> Some (map (\<lambda>x. parseSchemaRef (Some x)) xs))"

text \<open>
  The same conversion run on a call stack of bounded height: \<open>parseSchemaRef_stack n\<close>
  allows \<open>n\<close> nested activations and returns \<open>None\<close> when a further one would be needed.
\<close>

fun parseSchemaRef_stack :: "nat \<Rightarrow> OpenAPISchema option \<Rightarrow> SchemaRef option" where
  "parseSchemaRef_stack 0 schema = None"
| "parseSchemaRef_stack (Suc n) None =
     Some (SchemaRef (Some ''object'') None None None None None None None None None None None None)"
| "parseSchemaRef_stack (Suc n)
       (Some (OpenAPISchema ty fmt descr props its req en ex rf nul one any all)) =
     do {
       its' \<leftarrow> (case its of None \<Rightarrow> Some None
                | Some i \<Rightarrow> map_option Some (parseSchemaRef_stack n (Some i)));
       props' \<leftarrow> (case props of None \<Rightarrow> Some None
                | Some ps \<Rightarrow> map_option Some
                    (those (map (\<lambda>(k, v). map_option (Pair k) (parseSchemaRef_stack n (Some v))) ps)));
       one' \<leftarrow> (case one of None \<Rightarrow> Some None
                | Some xs \<Rightarrow> map_option Some
                    (those (map (\<lambda>x. parseSchemaRef_stack n (Some x)) xs)));
       any' \<leftarrow> (case any of None \<Rightarrow> Some None
                | Some xs \<Rightarrow> map_option Some
                    (those (map (\<lambda>x. parseSchemaRef_stack n (Some x)) xs)));
       all' \<leftarrow> (case all of None \<Rightarrow> Some None
                | Some xs \<Rightarrow> map_option Some
                    (those (map (\<lambda>x. parseSchemaRef_stack n (Some x)) xs)));
       Some (SchemaRef ty rf fmt descr en its' props' req ex nul one' any' all')
     }"

text \<open>The nesting depth of a schema node: one more than the deepest node below it.\<close>

definition max_list :: "nat list \<Rightarrow> nat" where
  "max_list xs = fold max xs 0"

fun nesting_depth :: "OpenAPISchema \<Rightarrow> nat" where
  "nesting_depth (OpenAPISchema ty fmt descr props its req en ex rf nul one any all) =
     Suc (max_list
       [case its of None \<Rightarrow> 0 | Some i \<Rightarrow> nesting_depth i,
        case props of None \<Rightarrow> 0 | Some ps \<Rightarrow> max_list (map (\<lambda>(k, v). nesting_depth v) ps),
        case one of None \<Rightarrow> 0 | Some xs \<Rightarrow> max_list (map nesting_depth xs),
        case any of None \<Rightarrow> 0 | Some xs \<Rightarrow> max_list (map nesting_depth xs),
        case all of None \<Rightarrow> 0 | Some xs \<Rightarrow> max_list (map nesting_depth xs)])"

subsection \<open>Parameters, request bodies, responses, schemas\<close>

definition parseParameter :: "OpenAPIParameter \<Rightarrow> Parameter" where
  "parseParameter param =
     \<lparr> p_name = pr_name param,
       p_in = pr_in param,
       p_description = pr_description param,
       p_required = (case pr_required param of Some True \<Rightarrow> True
                     | _ \<Rightarrow> pr_in param = Some ''path''),
       p_schema = parseSchemaRef (pr_schema param),
       p_example = pr_example param \<rparr>"

text \<open>
  The loop over the entries of a \<^verbatim>\<open>content\<close> mapping, which \<open>parseRequestBody\<close> (lines 182
  to 188) and \<open>parseResponses\<close> (lines 201 to 207) both run. The new object is filled by
  assignment, \<^verbatim>\<open>content[mediaType] = ...\<close>; an assignment to the key \<^verbatim>\<open>__proto__\<close> sets the
  prototype of \<^verbatim>\<open>content\<close> and adds no entry.
\<close>

definition parseContent :: "(string \<times> MediaContent option) list \<Rightarrow> error + (string \<times> MediaType) list" where
  "parseContent entries =
     and_then
       (traverse (\<lambda>(mediaType, mediaContent).
            and_then (deref mediaContent) (\<lambda>mc.
              Inr (mediaType, \<lparr> mt_schema = parseSchemaRef (mc_schema mc),
                                mt_example = mc_example mc \<rparr>)))
          entries)
       (\<lambda>assigned. Inr (filter (\<lambda>(mediaType, m). mediaType \<noteq> ''__proto__'') assigned))"

definition parseRequestBody :: "OperationRequestBody option \<Rightarrow> error + RequestBody option" where
  "parseRequestBody body =
     (case body of None \<Rightarrow> Inr None
      | Some b \<Rightarrow>
          and_then (parseContent (or_empty (qb_content b))) (\<lambda>content. Inr (Some
            \<lparr> rb_description = qb_description b,
              rb_required = (case qb_required b of Some True \<Rightarrow> True | _ \<Rightarrow> False),
              rb_content = content \<rparr>)))"

definition parseResponses ::
  "(string \<times> OperationResponse option) list option \<Rightarrow> error + Response list" where
  "parseResponses responses =
     (case responses of None \<Rightarrow> Inr []
      | Some rs \<Rightarrow> traverse (\<lambda>(statusCode, response).
          and_then (deref response) (\<lambda>r.
            and_then (parseContent (or_empty (rs_content r))) (\<lambda>content. Inr
              \<lparr> r_statusCode = statusCode,
                r_description = rs_description r,
                r_content = (if length content > 0 then Some content else None) \<rparr>))) rs)"

definition parseSchema :: "string \<Rightarrow> OpenAPISchema \<Rightarrow> Schema" where
  "parseSchema name schema =
     \<lparr> sc_name = name,
       sc_type = (case os_type schema of None \<Rightarrow> ''object''
          | Some t \<Rightarrow> if t = [] then ''object'' else t),
       sc_description = os_description schema,
       sc_properties = (case os_properties schema of None \<Rightarrow> None
          | Some ps \<Rightarrow> Some (map (\<lambda>(k, v). (k, parseSchemaRef (Some v))) ps)),
       sc_items = (case os_items schema of None \<Rightarrow> None
          | Some i \<Rightarrow> Some (parseSchemaRef (Some i))),
       sc_required = os_required schema,
       sc_enum = os_enum schema,
       sc_format = os_format schema,
       sc_example = os_example schema \<rparr>"

subsection \<open>extractTags\<close>

text \<open>A JavaScript \<^verbatim>\<open>Set\<close> iterates in insertion order; \<^verbatim>\<open>add\<close> of a member changes
  nothing. It is the list of its members in insertion order.\<close>

definition tagSet_add :: "string list \<Rightarrow> string \<Rightarrow> string list" where
  "tagSet_add tagSet t = (if t \<in> set tagSet then tagSet else tagSet @ [t])"

definition extractTags :: "Endpoint list \<Rightarrow> Tag list" where
  "extractTags endpoints =
     map (\<lambda>name. \<lparr> tg_name = Some name, tg_description = None \<rparr>)
       (foldl (\<lambda>tagSet e. foldl tagSet_add tagSet (e_tags e)) [] endpoints)"

subsection \<open>parseOpenApiSpec\<close>

definition methods :: "string list" where
  "methods = [''get'', ''post'', ''put'', ''patch'', ''delete'', ''options'', ''head'']"

text \<open>The body of the inner loop: the endpoint pushed for one method of one path item.
  The object literal evaluates its fields in order; four of them may throw.\<close>

definition operationEndpoint ::
  "string \<Rightarrow> OpenAPIParameter option list \<Rightarrow> string \<Rightarrow> Operation \<Rightarrow> error + Endpoint" where
  "operationEndpoint path pathParams method operation =
     (let allParams = pathParams @ or_empty (op_parameters operation) in
      and_then (traverse (\<lambda>p. and_then (deref p) (\<lambda>param. Inr (parseParameter param))) allParams)
        (\<lambda>parameters.
      and_then (parseRequestBody (op_requestBody operation)) (\<lambda>requestBody.
      and_then (parseResponses (op_responses operation)) (\<lambda>responses.
      and_then
        (case op_security operation of None \<Rightarrow> Inr None
         | Some requirements \<Rightarrow>
             and_then
               (traverse (\<lambda>s. and_then (deref s) (\<lambda>requirement.
                    Inr (case requirement of [] \<Rightarrow> None | (k, scopes) # rest \<Rightarrow> Some k)))
                  requirements)
               (\<lambda>names. Inr (Some names)))
        (\<lambda>security. Inr
      \<lparr> e_id = method @ ''-'' @ path,
        e_path = path,
        e_method = method,
        e_summary = op_summary operation,
        e_description = op_description operation,
        e_tags = (case op_tags operation of None \<Rightarrow> [''default''] | Some ts \<Rightarrow> ts),
        e_parameters = parameters,
        e_requestBody = requestBody,
        e_responses = responses,
        e_security = security,
        e_deprecated = op_deprecated operation \<rparr>)))))"

text \<open>The inner loop over the method names, for one entry of \<^verbatim>\<open>paths\<close> that is not null.\<close>

definition pathEndpoints :: "string \<Rightarrow> PathItem \<Rightarrow> error + Endpoint list" where
  "pathEndpoints path pathItem =
     (let pathParams = or_empty (pi_parameters pathItem) in
      traverse (\<lambda>(method, operation). operationEndpoint path pathParams method operation)
        (List.map_filter (\<lambda>method.
            case map_of (pi_operations pathItem) method of
              None \<Rightarrow> None
            | Some operation \<Rightarrow> Some (method, operation))
          methods))"

text \<open>The outer loop; \<^verbatim>\<open>pathItem.parameters\<close> is its first read of a path item.\<close>

definition parseEndpoints :: "OpenAPISpec \<Rightarrow> error + Endpoint list" where
  "parseEndpoints spec =
     and_then
       (traverse (\<lambda>(path, pathItem). and_then (deref pathItem) (pathEndpoints path))
          (or_empty (d_paths spec)))
       (\<lambda>pushed. Inr (concat pushed))"

definition parseSecurityScheme :: "string \<Rightarrow> OpenAPISecurityScheme \<Rightarrow> SecurityScheme" where
  "parseSecurityScheme name scheme =
     \<lparr> sec_name = name,
       sec_type = ss_type scheme,
       sec_in = ss_in scheme,
       sec_scheme = ss_scheme scheme,
       sec_bearerFormat = ss_bearerFormat scheme,
       sec_description = ss_description scheme \<rparr>"

text \<open>
  Lines 103 to 166: everything after the input has been parsed. The gate reads
  \<^verbatim>\<open>spec.openapi\<close>, which throws when the parsed value is \<^verbatim>\<open>null\<close> or \<^verbatim>\<open>undefined\<close>.
\<close>

definition normalize :: "OpenAPISpec option \<Rightarrow> error + ApiSpec" where
  "normalize parsed =
     and_then (deref parsed) (\<lambda>spec.
       if \<not> truthy (d_openapi spec) \<and> \<not> truthy (d_swagger spec) then Inl ValidationError
       else
         and_then (parseEndpoints spec) (\<lambda>endpoints.
         and_then (traverse (\<lambda>(name, schema).
               and_then (deref schema) (\<lambda>sch. Inr (parseSchema name sch)))
             (or_empty (case d_components spec of None \<Rightarrow> None | Some c \<Rightarrow> co_schemas c)))
           (\<lambda>schemas.
         and_then (traverse (\<lambda>(name, scheme).
               and_then (deref scheme) (\<lambda>sch. Inr (parseSecurityScheme name sch)))
             (or_empty (case d_components spec of None \<Rightarrow> None
                        | Some c \<Rightarrow> co_securitySchemes c)))
           (\<lambda>securitySchemes.
         and_then (deref (d_info spec)) (\<lambda>info. Inr
           \<lparr> a_title = in_title info,
             a_version = in_version info,
             a_description = in_description info,
             a_servers = d_servers spec,
             a_endpoints = endpoints,
             a_schemas = schemas,
             a_tags = (case d_tags spec of Some ts \<Rightarrow> ts | None \<Rightarrow> extractTags endpoints),
             a_securitySchemes = securitySchemes \<rparr>)))))"

text \<open>The input is a text or an object; \<^verbatim>\<open>typeof null\<close> is \<^verbatim>\<open>"object"\<close>.\<close>

datatype input = Text string | Object "OpenAPISpec option"

definition parseOpenApiSpec ::
  "(string \<Rightarrow> OpenAPISpec option option) \<Rightarrow> (string \<Rightarrow> OpenAPISpec option option) \<Rightarrow> input
     \<Rightarrow> error + ApiSpec" where
  "parseOpenApiSpec JSON_parse yaml_load inp =
     (case inp of
        Text s \<Rightarrow>
          (case JSON_parse s of
             Some spec \<Rightarrow> normalize spec
           | None \<Rightarrow>
               (case yaml_load s of
                  Some spec \<Rightarrow> normalize spec
                | None \<Rightarrow> Inl ParseError))
      | Object spec \<Rightarrow> normalize spec)"

subsection \<open>Specification-side notions\<close>

text \<open>The distinct members of a list, in the order in which each is first seen.\<close>

fun first_seen :: "'a list \<Rightarrow> 'a list" where
  "first_seen [] = []"
| "first_seen (x # xs) = x # removeAll x (first_seen xs)"

text \<open>The path-template/method pairs of a path mapping that bear an operation object, in
  the order of the document's paths and, within a path, of the method enumeration.\<close>

definition operation_pairs :: "(string \<times> PathItem option) list \<Rightarrow> (string \<times> string) list" where
  "operation_pairs ps = concat (map (\<lambda>(path, pathItem).
      case pathItem of None \<Rightarrow> []
      | Some item \<Rightarrow>
          map (Pair path) (filter (\<lambda>m. map_of (pi_operations item) m \<noteq> None) methods)) ps)"

subsection \<open>Example documents\<close>

definition pet_ref_schema :: OpenAPISchema where
  "pet_ref_schema = OpenAPISchema (Some ''object'') None None None None None None None
     (Some ''#/components/schemas/Pet'') None None None None"

definition id_param :: OpenAPIParameter where
  "id_param = \<lparr> pr_name = Some ''id'', pr_in = Some ''path'', pr_description = None,
     pr_required = Some False, pr_schema = None, pr_example = None \<rparr>"

definition limit_param :: OpenAPIParameter where
  "limit_param = \<lparr> pr_name = Some ''limit'', pr_in = Some ''query'', pr_description = None,
     pr_required = None, pr_schema = None, pr_example = None \<rparr>"

definition no_operation :: Operation where
  "no_operation = \<lparr> op_summary = None, op_description = None, op_operationId = None,
     op_tags = None, op_parameters = None, op_requestBody = None, op_responses = None,
     op_security = None, op_deprecated = None \<rparr>"

definition no_info :: Info where
  "no_info = \<lparr> in_title = None, in_version = None, in_description = None \<rparr>"

text \<open>\<^verbatim>\<open>{openapi: "3.0.0"}\<close>: a version and nothing else.\<close>

definition bare_doc :: OpenAPISpec where
  "bare_doc = \<lparr> d_openapi = Some ''3.0.0'', d_swagger = None, d_info = None, d_servers = None,
     d_paths = None, d_components = None, d_tags = None \<rparr>"

text \<open>\<^verbatim>\<open>{openapi: "3.0.0", info: {}}\<close>\<close>

definition minimal_doc :: OpenAPISpec where
  "minimal_doc = bare_doc \<lparr> d_info := Some no_info \<rparr>"

text \<open>One path with a path-level query parameter and a \<^verbatim>\<open>get\<close> operation whose path
  parameter says \<^verbatim>\<open>required: false\<close>.\<close>

definition pets_doc :: OpenAPISpec where
  "pets_doc = minimal_doc \<lparr>
     d_paths := Some [(''/pets/{id}'', Some
       \<lparr> pi_operations = [(''get'', no_operation \<lparr> op_parameters := Some [Some id_param] \<rparr>)],
         pi_parameters = Some [Some limit_param] \<rparr>)] \<rparr>"

definition pets_endpoint :: Endpoint where
  "pets_endpoint =
     \<lparr> e_id = ''get-/pets/{id}'', e_path = ''/pets/{id}'', e_method = ''get'',
       e_summary = None, e_description = None, e_tags = [''default''],
       e_parameters = [parseParameter limit_param, parseParameter id_param],
       e_requestBody = None, e_responses = [], e_security = None, e_deprecated = None \<rparr>"

text \<open>An operation that declares \<^verbatim>\<open>tags: []\<close>.\<close>

definition untagged_doc :: OpenAPISpec where
  "untagged_doc = minimal_doc \<lparr>
     d_paths := Some [(''/health'', Some
       \<lparr> pi_operations = [(''get'', no_operation \<lparr> op_tags := Some [] \<rparr>)],
         pi_parameters = None \<rparr>)] \<rparr>"

text \<open>A document that declares \<^verbatim>\<open>tags: []\<close> at its root and has a tagged operation.\<close>

definition empty_tag_list_doc :: OpenAPISpec where
  "empty_tag_list_doc = minimal_doc \<lparr>
     d_paths := Some [(''/pets'', Some
       \<lparr> pi_operations = [(''get'', no_operation \<lparr> op_tags := Some [''pets''] \<rparr>)],
         pi_parameters = None \<rparr>)],
     d_tags := Some [] \<rparr>"

text \<open>Two paths, three operations under method keys, one entry under a key that is no
  method name, no declared tag list.\<close>

definition tagged_doc :: OpenAPISpec where
  "tagged_doc = minimal_doc \<lparr>
     d_paths := Some
       [(''/x'', Some
         \<lparr> pi_operations =
             [(''post'', no_operation \<lparr> op_tags := Some [''a'', ''c''] \<rparr>),
              (''x-internal'', no_operation),
              (''get'', no_operation \<lparr> op_tags := Some [''b'', ''a''] \<rparr>)],
           pi_parameters = None \<rparr>),
        (''/y'', Some
         \<lparr> pi_operations = [(''delete'', no_operation \<lparr> op_tags := Some [''c''] \<rparr>)],
           pi_parameters = None \<rparr>)] \<rparr>"

text \<open>An object whose one parameter has the example \<^verbatim>\<open>NaN\<close>, and the object that differs from
  it in having the example \<^verbatim>\<open>null\<close>.\<close>

definition example_doc :: "unknown \<Rightarrow> OpenAPISpec" where
  "example_doc v = minimal_doc \<lparr>
     d_paths := Some [(''/x'', Some
       \<lparr> pi_operations = [(''get'', no_operation \<lparr> op_parameters := Some [Some
            \<lparr> pr_name = Some ''q'', pr_in = Some ''query'', pr_description = None,
              pr_required = None, pr_schema = None, pr_example = Some v \<rparr>] \<rparr>)],
         pi_parameters = None \<rparr>)] \<rparr>"

definition nan_doc :: OpenAPISpec where
  "nan_doc = example_doc JNaN"

definition null_doc :: OpenAPISpec where
  "null_doc = example_doc JNull"

text \<open>
  Texts, and the library functions on them. \<open>bare_text\<close> and \<open>minimal_text\<close> are what
  \<^verbatim>\<open>JSON.stringify\<close> returns for \<open>bare_doc\<close> and \<open>minimal_doc\<close>, and \<open>nan_text\<close> what it
  returns for \<open>nan_doc\<close>: it writes \<^verbatim>\<open>NaN\<close> as \<^verbatim>\<open>null\<close>, so \<^verbatim>\<open>JSON.parse\<close> reads \<open>nan_text\<close> as
  \<open>null_doc\<close>. \<^verbatim>\<open>JSON.parse\<close> returns \<^verbatim>\<open>null\<close> for the text \<^verbatim>\<open>null\<close> and throws for the empty
  text, for which \<^verbatim>\<open>yaml.load\<close> returns \<^verbatim>\<open>undefined\<close>. The three functions below agree with
  the libraries on these texts and documents, the only ones they are applied to.
\<close>

definition bare_text :: string where
  \<open>bare_text = ''{"openapi":"3.0.0"}''\<close>

definition minimal_text :: string where
  \<open>minimal_text = ''{"openapi":"3.0.0","info":{}}''\<close>

definition nan_text :: string where
  \<open>nan_text = ''{"openapi":"3.0.0","info":{},"paths":{"/x":{"get":{"parameters":[{"name":"q","in":"query","example":null}]}}}}''\<close>

definition JSON_parse_example :: "string \<Rightarrow> OpenAPISpec option option" where
  "JSON_parse_example s =
     (if s = bare_text then Some (Some bare_doc)
      else if s = minimal_text then Some (Some minimal_doc)
      else if s = nan_text then Some (Some null_doc)
      else if s = ''null'' then Some None
      else None)"

definition yaml_load_example :: "string \<Rightarrow> OpenAPISpec option option" where
  "yaml_load_example s = (if s = [] then Some None else None)"

definition JSON_stringify_example :: "OpenAPISpec option \<Rightarrow> string" where
  "JSON_stringify_example obj =
     (if obj = Some nan_doc then nan_text
      else if obj = Some minimal_doc then minimal_text
      else if obj = Some bare_doc then bare_text
      else ''null'')"

section \<open>Properties\<close>

lemmas example_defs = pet_ref_schema_def id_param_def limit_param_def
  no_operation_def no_info_def bare_doc_def minimal_doc_def pets_doc_def pets_endpoint_def
  untagged_doc_def empty_tag_list_doc_def tagged_doc_def example_doc_def nan_doc_def
  null_doc_def

lemmas library_defs = JSON_parse_example_def yaml_load_example_def JSON_stringify_example_def
  bare_text_def minimal_text_def nan_text_def

lemmas normalize_defs = normalize_def parseEndpoints_def pathEndpoints_def operationEndpoint_def
  parseParameter_def parseRequestBody_def parseResponses_def parseContent_def parseSchema_def
  parseSecurityScheme_def extractTags_def tagSet_add_def methods_def or_empty_def truthy_def
  deref_def List.map_filter_def

subsection \<open>Sequencing and walks\<close>

lemma and_then_Inr: "and_then m f = Inr y \<longleftrightarrow> (\<exists>x. m = Inr x \<and> f x = Inr y)"
  by (cases m) simp_all

lemma and_then_Inl: "and_then m f = Inl e \<longleftrightarrow> m = Inl e \<or> (\<exists>x. m = Inr x \<and> f x = Inl e)"
  by (cases m) simp_all

lemma deref_Inr: "deref x = Inr v \<longleftrightarrow> x = Some v"
  by (simp add: deref_def split: option.splits)

lemma deref_Inl: "deref x = Inl e \<longleftrightarrow> x = None \<and> e = TypeError"
  by (auto simp: deref_def split: option.splits)

lemma traverse_mem:
  "traverse f xs = Inr ys \<Longrightarrow> y \<in> set ys \<Longrightarrow> \<exists>x \<in> set xs. f x = Inr y"
proof (induction xs arbitrary: ys)
  case Nil
  then show ?case by simp
next
  case (Cons x xs)
  from Cons.prems(1) obtain z zs where z: "f x = Inr z" "traverse f xs = Inr zs" "ys = z # zs"
    by (auto simp: and_then_Inr)
  with Cons.prems(2) Cons.IH [of zs] show ?case by auto
qed

lemma traverse_map_eq:
  "traverse f xs = Inr ys \<Longrightarrow> (\<And>x y. x \<in> set xs \<Longrightarrow> f x = Inr y \<Longrightarrow> g y = h x)
     \<Longrightarrow> map g ys = map h xs"
proof (induction xs arbitrary: ys)
  case Nil
  then show ?case by simp
next
  case (Cons x xs)
  from Cons.prems(1) obtain z zs where z: "f x = Inr z" "traverse f xs = Inr zs" "ys = z # zs"
    by (auto simp: and_then_Inr)
  have "map g zs = map h xs" using z(2) Cons.prems(2) by (intro Cons.IH) auto
  moreover have "g z = h x" using z(1) Cons.prems(2) by simp
  ultimately show ?case using z(3) by simp
qed

lemma traverse_Inl: "traverse f xs = Inl e \<Longrightarrow> \<exists>x \<in> set xs. f x = Inl e"
  by (induction xs) (auto simp: and_then_Inl)

subsection \<open>Where endpoints come from\<close>

lemma operationEndpoint_fields:
  assumes "operationEndpoint path pathParams m operation = Inr e"
  shows "e_id e = m @ ''-'' @ path" and "e_path e = path" and "e_method e = m"
    and "e_tags e = (case op_tags operation of None \<Rightarrow> [''default''] | Some ts \<Rightarrow> ts)"
    and "\<And>p. p \<in> set (e_parameters e) \<Longrightarrow> \<exists>param. p = parseParameter param"
proof -
  from assms obtain parameters requestBody responses security where
    ps: "traverse (\<lambda>p. and_then (deref p) (\<lambda>param. Inr (parseParameter param)))
          (pathParams @ or_empty (op_parameters operation)) = Inr parameters"
    and e: "e = \<lparr> e_id = m @ ''-'' @ path, e_path = path, e_method = m,
        e_summary = op_summary operation, e_description = op_description operation,
        e_tags = (case op_tags operation of None \<Rightarrow> [''default''] | Some ts \<Rightarrow> ts),
        e_parameters = parameters, e_requestBody = requestBody, e_responses = responses,
        e_security = security, e_deprecated = op_deprecated operation \<rparr>"
    unfolding operationEndpoint_def Let_def and_then_Inr by auto
  show "e_id e = m @ ''-'' @ path" "e_path e = path" "e_method e = m"
    "e_tags e = (case op_tags operation of None \<Rightarrow> [''default''] | Some ts \<Rightarrow> ts)"
    by (simp_all add: e)
  fix p assume "p \<in> set (e_parameters e)"
  then have "p \<in> set parameters" by (simp add: e)
  from traverse_mem [OF ps this] show "\<exists>param. p = parseParameter param"
    by (auto simp: and_then_Inr)
qed

lemma pathEndpoints_origin:
  assumes "pathEndpoints path pathItem = Inr es" and "e \<in> set es"
  shows "\<exists>m operation. m \<in> set methods \<and> map_of (pi_operations pathItem) m = Some operation \<and>
      operationEndpoint path (or_empty (pi_parameters pathItem)) m operation = Inr e"
proof -
  from assms have "\<exists>x \<in> set (List.map_filter (\<lambda>m.
            case map_of (pi_operations pathItem) m of None \<Rightarrow> None
            | Some operation \<Rightarrow> Some (m, operation)) methods).
      (case x of (m, operation) \<Rightarrow>
         operationEndpoint path (or_empty (pi_parameters pathItem)) m operation) = Inr e"
    unfolding pathEndpoints_def Let_def by (rule traverse_mem)
  then show ?thesis
    by (auto simp: List.map_filter_def split: option.splits)
qed

lemma endpoint_origin:
  assumes "parseEndpoints spec = Inr es" and "e \<in> set es"
  shows "\<exists>path pathItem m operation.
      (path, Some pathItem) \<in> set (or_empty (d_paths spec)) \<and> m \<in> set methods \<and>
      map_of (pi_operations pathItem) m = Some operation \<and>
      operationEndpoint path (or_empty (pi_parameters pathItem)) m operation = Inr e"
proof -
  from assms(1) obtain pushed where
    t: "traverse (\<lambda>(path, pathItem). and_then (deref pathItem) (pathEndpoints path))
          (or_empty (d_paths spec)) = Inr pushed"
    and es: "es = concat pushed"
    by (auto simp: parseEndpoints_def and_then_Inr)
  from assms(2) es obtain ys where ys: "ys \<in> set pushed" "e \<in> set ys" by auto
  from traverse_mem [OF t ys(1)] obtain path pathItem where
    mem: "(path, Some pathItem) \<in> set (or_empty (d_paths spec))"
    and pe: "pathEndpoints path pathItem = Inr ys"
    by (auto simp: and_then_Inr deref_Inr)
  from pathEndpoints_origin [OF pe ys(2)] mem show ?thesis by blast
qed

lemma normalize_endpoints:
  "normalize (Some spec) = Inr api \<Longrightarrow> parseEndpoints spec = Inr (a_endpoints api)"
  by (auto simp: normalize_def and_then_Inr deref_Inr split: if_splits)

lemma normalize_Some: "normalize parsed = Inr api \<Longrightarrow> \<exists>spec. parsed = Some spec"
  by (auto simp: normalize_def and_then_Inr deref_Inr)

lemma pets_doc_normalizes:
  "normalize (Some pets_doc) = Inr (projr (normalize (Some pets_doc)))"
  by (simp add: example_defs normalize_defs)

lemma pets_doc_endpoints: "a_endpoints (projr (normalize (Some pets_doc))) = [pets_endpoint]"
  by (simp add: example_defs normalize_defs)

lemma tagged_doc_normalizes:
  "normalize (Some tagged_doc) = Inr (projr (normalize (Some tagged_doc)))"
  by (simp add: example_defs normalize_defs)

subsection \<open>Only three errors\<close>

lemma parseContent_error: "parseContent entries = Inl e \<Longrightarrow> e = TypeError"
  by (auto simp: parseContent_def and_then_Inl deref_Inl dest!: traverse_Inl)

lemma parseRequestBody_error: "parseRequestBody body = Inl e \<Longrightarrow> e = TypeError"
  by (auto simp: parseRequestBody_def and_then_Inl dest: parseContent_error split: option.splits)

lemma parseResponses_error: "parseResponses responses = Inl e \<Longrightarrow> e = TypeError"
  by (auto simp: parseResponses_def and_then_Inl deref_Inl dest!: traverse_Inl
      dest: parseContent_error split: option.splits)

lemma operationEndpoint_error:
  "operationEndpoint path pathParams m operation = Inl e \<Longrightarrow> e = TypeError"
  unfolding operationEndpoint_def Let_def
  by (auto simp: and_then_Inl deref_Inl dest!: traverse_Inl
      dest: parseRequestBody_error parseResponses_error split: option.splits)

lemma pathEndpoints_error: "pathEndpoints path pathItem = Inl e \<Longrightarrow> e = TypeError"
  unfolding pathEndpoints_def Let_def
  by (auto dest!: traverse_Inl dest: operationEndpoint_error)

lemma parseEndpoints_error: "parseEndpoints spec = Inl e \<Longrightarrow> e = TypeError"
  by (auto simp: parseEndpoints_def and_then_Inl deref_Inl dest!: traverse_Inl
      dest: pathEndpoints_error)

lemma normalize_error: "normalize parsed = Inl e \<Longrightarrow> e = ValidationError \<or> e = TypeError"
  by (auto simp: normalize_def and_then_Inl deref_Inl dest!: traverse_Inl
      dest: parseEndpoints_error split: if_splits)

subsection \<open>Schema references\<close>

text \<open>
  C1 (counterexample). The claim says a SchemaRef converted from a node with a \<^verbatim>\<open>$ref\<close>
  has no other field populated, whatever the node carries beside the \<^verbatim>\<open>$ref\<close>. The node
  \<^verbatim>\<open>{type: "object", $ref: "#/components/schemas/Pet"}\<close> converts to a SchemaRef whose
  \<open>type\<close> is \<^verbatim>\<open>"object"\<close>.
\<close>

theorem ref_not_exclusive_counterexample:
  "os_ref pet_ref_schema = Some ''#/components/schemas/Pet'' \<and>
   sr_type (parseSchemaRef (Some pet_ref_schema)) = Some ''object''"
  by (simp add: pet_ref_schema_def)

text \<open>
  C1 (amended). For every schema node that contains a \<^verbatim>\<open>$ref\<close> string, the converted
  SchemaRef has \<^verbatim>\<open>$ref\<close> equal to the source string verbatim; its \<open>type\<close> is the source
  node's \<open>type\<close>, and its \<open>items\<close> and \<open>properties\<close> are populated exactly when the source
  node carries them. So they are unpopulated when the node carries the \<^verbatim>\<open>$ref\<close> alone.
\<close>

theorem ref_verbatim_fields_copied:
  "os_ref schema = Some r \<Longrightarrow>
     sr_ref (parseSchemaRef (Some schema)) = Some r \<and>
     sr_type (parseSchemaRef (Some schema)) = os_type schema \<and>
     (sr_items (parseSchemaRef (Some schema)) = None \<longleftrightarrow> os_items schema = None) \<and>
     (sr_properties (parseSchemaRef (Some schema)) = None \<longleftrightarrow> os_properties schema = None)"
  by (cases schema) (simp split: option.splits)

theorem ref_verbatim_fields_copied_witness:
  "os_ref pet_ref_schema = Some ''#/components/schemas/Pet'' \<and>
   sr_ref (parseSchemaRef (Some pet_ref_schema)) = Some ''#/components/schemas/Pet'' \<and>
   sr_type (parseSchemaRef (Some pet_ref_schema)) = os_type pet_ref_schema \<and>
   sr_items (parseSchemaRef (Some pet_ref_schema)) = None \<and>
   sr_properties (parseSchemaRef (Some pet_ref_schema)) = None"
  using ref_verbatim_fields_copied [of pet_ref_schema "''#/components/schemas/Pet''"]
  by (simp add: pet_ref_schema_def)

subsection \<open>Termination of the schema conversion\<close>

lemma fold_max_ge: "a \<le> fold max xs (a::nat)"
  by (induction xs arbitrary: a) (auto intro: order_trans [OF max.cobounded2])

lemma fold_max_mem: "x \<in> set xs \<Longrightarrow> x \<le> fold max xs (a::nat)"
proof (induction xs arbitrary: a)
  case Nil then show ?case by simp
next
  case (Cons y ys)
  show ?case
  proof (cases "x = y")
    case True
    have "y \<le> max y a" by simp
    also have "\<dots> \<le> fold max ys (max y a)" by (rule fold_max_ge)
    finally show ?thesis using True by simp
  next
    case False
    with Cons.prems have "x \<in> set ys" by simp
    then show ?thesis using Cons.IH by simp
  qed
qed

lemma max_list_mem: "x \<in> set xs \<Longrightarrow> x \<le> max_list xs"
  by (simp add: max_list_def fold_max_mem)

lemma max_list_bound: "max_list xs \<le> n \<Longrightarrow> x \<in> set xs \<Longrightarrow> x \<le> n"
  using max_list_mem order_trans by blast

lemma those_map_Some:
  "(\<And>x. x \<in> set xs \<Longrightarrow> f x = Some (g x)) \<Longrightarrow> those (map f xs) = Some (map g xs)"
  by (induction xs) simp_all

lemma stack_items:
  assumes "\<And>s. nesting_depth s \<le> n \<Longrightarrow> parseSchemaRef_stack n (Some s) = Some (parseSchemaRef (Some s))"
    and "(case its of None \<Rightarrow> 0 | Some i \<Rightarrow> nesting_depth i) \<le> n"
  shows "(case its of None \<Rightarrow> Some None
                | Some i \<Rightarrow> map_option Some (parseSchemaRef_stack n (Some i)))
         = Some (case its of None \<Rightarrow> None | Some i \<Rightarrow> Some (parseSchemaRef (Some i)))"
  using assms by (cases its) simp_all

lemma stack_properties:
  assumes "\<And>s. nesting_depth s \<le> n \<Longrightarrow> parseSchemaRef_stack n (Some s) = Some (parseSchemaRef (Some s))"
    and "(case props of None \<Rightarrow> 0 | Some ps \<Rightarrow> max_list (map (\<lambda>(k, v). nesting_depth v) ps)) \<le> n"
  shows "(case props of None \<Rightarrow> Some None
                | Some ps \<Rightarrow> map_option Some
                    (those (map (\<lambda>(k, v). map_option (Pair k) (parseSchemaRef_stack n (Some v))) ps)))
         = Some (case props of None \<Rightarrow> None
        | Some ps \<Rightarrow> Some (map (\<lambda>(k, v). (k, parseSchemaRef (Some v))) ps))"
proof (cases props)
  case None then show ?thesis by simp
next
  case (Some ps)
  have "those (map (\<lambda>(k, v). map_option (Pair k) (parseSchemaRef_stack n (Some v))) ps)
        = Some (map (\<lambda>(k, v). (k, parseSchemaRef (Some v))) ps)"
  proof (rule those_map_Some)
    fix x assume x: "x \<in> set ps"
    obtain k v where kv: "x = (k, v)" by (cases x)
    have "nesting_depth v \<in> set (map (\<lambda>(k, v). nesting_depth v) ps)"
      using x kv by force
    then have "nesting_depth v \<le> n"
      using assms(2) Some max_list_bound by simp
    then show "(case x of (k, v) \<Rightarrow> map_option (Pair k) (parseSchemaRef_stack n (Some v)))
        = Some (case x of (k, v) \<Rightarrow> (k, parseSchemaRef (Some v)))"
      using assms(1) kv by simp
  qed
  then show ?thesis using Some by simp
qed

lemma stack_members:
  assumes "\<And>s. nesting_depth s \<le> n \<Longrightarrow> parseSchemaRef_stack n (Some s) = Some (parseSchemaRef (Some s))"
    and "(case l of None \<Rightarrow> 0 | Some xs \<Rightarrow> max_list (map nesting_depth xs)) \<le> n"
  shows "(case l of None \<Rightarrow> Some None
                | Some xs \<Rightarrow> map_option Some
                    (those (map (\<lambda>x. parseSchemaRef_stack n (Some x)) xs)))
        = Some (case l of None \<Rightarrow> None | Some xs \<Rightarrow> Some (map (\<lambda>x. parseSchemaRef (Some x)) xs))"
proof (cases l)
  case None then show ?thesis by simp
next
  case (Some xs)
  have "those (map (\<lambda>x. parseSchemaRef_stack n (Some x)) xs)
          = Some (map (\<lambda>x. parseSchemaRef (Some x)) xs)"
  proof (rule those_map_Some)
    fix x assume x: "x \<in> set xs"
    then have "nesting_depth x \<in> set (map nesting_depth xs)" by simp
    then have "nesting_depth x \<le> n"
      using assms(2) Some max_list_bound by simp
    then show "parseSchemaRef_stack n (Some x) = Some (parseSchemaRef (Some x))"
      by (rule assms(1))
  qed
  then show ?thesis using Some by simp
qed

lemma stack_enough:
  "nesting_depth s \<le> n \<Longrightarrow> parseSchemaRef_stack n (Some s) = Some (parseSchemaRef (Some s))"
proof (induction n arbitrary: s)
  case 0
  then show ?case by (cases s) simp
next
  case (Suc n)
  obtain ty fmt descr props its req en ex rf nul one any all
    where s: "s = OpenAPISchema ty fmt descr props its req en ex rf nul one any all"
    by (cases s)
  from Suc.prems have d:
    "(case its of None \<Rightarrow> 0 | Some i \<Rightarrow> nesting_depth i) \<le> n"
    "(case props of None \<Rightarrow> 0 | Some ps \<Rightarrow> max_list (map (\<lambda>(k, v). nesting_depth v) ps)) \<le> n"
    "(case one of None \<Rightarrow> 0 | Some xs \<Rightarrow> max_list (map nesting_depth xs)) \<le> n"
    "(case any of None \<Rightarrow> 0 | Some xs \<Rightarrow> max_list (map nesting_depth xs)) \<le> n"
    "(case all of None \<Rightarrow> 0 | Some xs \<Rightarrow> max_list (map nesting_depth xs)) \<le> n"
    unfolding s nesting_depth.simps by (simp_all add: max_list_def [of "_ # _"])
  note IH = Suc.IH
  note e = stack_items [OF IH d(1)] stack_properties [OF IH d(2)]
      stack_members [OF IH d(3)] stack_members [OF IH d(4)]
      stack_members [OF IH d(5)]
  show ?case
    unfolding s parseSchemaRef_stack.simps parseSchemaRef.simps
    by (simp only: e) simp
qed

text \<open>
  C9. \<open>parseSchemaRef\<close> is a total function on schema nodes (its termination is proved with
  its definition, by the size of the node), and a call stack as high as the node's own
  nesting depth is enough for it to return, with the same result. A \<^verbatim>\<open>$ref\<close> is copied as
  a string and never followed, whatever it names.
\<close>

theorem parseSchemaRef_depth_bounded:
  "parseSchemaRef_stack (nesting_depth schema) (Some schema) = Some (parseSchemaRef (Some schema)) \<and>
   sr_ref (parseSchemaRef (Some schema)) = os_ref schema"
proof
  show "parseSchemaRef_stack (nesting_depth schema) (Some schema)
      = Some (parseSchemaRef (Some schema))"
    by (rule stack_enough) simp
  show "sr_ref (parseSchemaRef (Some schema)) = os_ref schema"
    by (cases schema) simp
qed

subsection \<open>Parameters\<close>

lemma parseParameter_required:
  "p_required (parseParameter param) =
     (pr_in param = Some ''path'' \<or> pr_required param = Some True)"
  by (auto simp: parseParameter_def split: option.splits bool.splits)

text \<open>
  C2. A parameter whose location is \<open>path\<close> is required in the output whatever the
  source says, also \<^verbatim>\<open>required: false\<close>; in any other location, \<open>required\<close> is the
  source's value, and false when the source has none. Every path parameter of every
  endpoint of a normalized document is required.
\<close>

theorem path_parameter_required:
  "(pr_in param = Some ''path'' \<longrightarrow> p_required (parseParameter param) = True) \<and>
   (pr_in param \<noteq> Some ''path'' \<longrightarrow>
      p_required (parseParameter param) = (case pr_required param of None \<Rightarrow> False | Some b \<Rightarrow> b)) \<and>
   (normalize parsed = Inr api \<and> e \<in> set (a_endpoints api) \<and> p \<in> set (e_parameters e) \<and>
      p_in p = Some ''path'' \<longrightarrow> p_required p = True)"
proof (intro conjI impI)
  assume "pr_in param = Some ''path''"
  then show "p_required (parseParameter param) = True"
    by (simp add: parseParameter_required)
next
  assume "pr_in param \<noteq> Some ''path''"
  then show "p_required (parseParameter param) =
      (case pr_required param of None \<Rightarrow> False | Some b \<Rightarrow> b)"
    by (simp add: parseParameter_required split: option.splits)
next
  assume a: "normalize parsed = Inr api \<and> e \<in> set (a_endpoints api) \<and> p \<in> set (e_parameters e) \<and>
      p_in p = Some ''path''"
  then obtain spec where "parsed = Some spec" using normalize_Some by blast
  with a have "parseEndpoints spec = Inr (a_endpoints api)" by (simp add: normalize_endpoints)
  moreover from a have "e \<in> set (a_endpoints api)" by simp
  ultimately have "\<exists>path pathItem mth operation.
      (path, Some pathItem) \<in> set (or_empty (d_paths spec)) \<and> mth \<in> set methods \<and>
      map_of (pi_operations pathItem) mth = Some operation \<and>
      operationEndpoint path (or_empty (pi_parameters pathItem)) mth operation = Inr e"
    by (rule endpoint_origin)
  then obtain path pathItem mth operation
    where o: "(path, Some pathItem) \<in> set (or_empty (d_paths spec))" "mth \<in> set methods"
      "map_of (pi_operations pathItem) mth = Some operation"
      "operationEndpoint path (or_empty (pi_parameters pathItem)) mth operation = Inr e"
    by blast
  from a have "p \<in> set (e_parameters e)" by simp
  from operationEndpoint_fields(5) [OF o(4) this] obtain param' where p: "p = parseParameter param'"
    by blast
  have "p_in (parseParameter param') = pr_in param'" by (simp add: parseParameter_def)
  with a p show "p_required p = True" by (simp add: parseParameter_required)
qed

theorem path_parameter_required_witness:
  "pr_in id_param = Some ''path'' \<and> pr_required id_param = Some False \<and>
   p_required (parseParameter id_param) = True \<and>
   pr_in limit_param \<noteq> Some ''path'' \<and> p_required (parseParameter limit_param) = False \<and>
   normalize (Some pets_doc) = Inr (projr (normalize (Some pets_doc))) \<and>
   pets_endpoint \<in> set (a_endpoints (projr (normalize (Some pets_doc)))) \<and>
   parseParameter id_param \<in> set (e_parameters pets_endpoint)"
  using path_parameter_required [of id_param "Some pets_doc" "projr (normalize (Some pets_doc))"
      pets_endpoint "parseParameter id_param"]
    path_parameter_required [of limit_param] pets_doc_normalizes pets_doc_endpoints
  by (simp add: id_param_def limit_param_def pets_endpoint_def)

subsection \<open>Tags\<close>

lemma set_first_seen: "set (first_seen xs) = set xs"
  by (induction xs) auto

lemma distinct_first_seen: "distinct (first_seen xs)"
  by (induction xs) (auto simp: distinct_removeAll)

lemma foldl_tagSet_add:
  "foldl tagSet_add acc xs = acc @ filter (\<lambda>x. x \<notin> set acc) (first_seen xs)"
proof (induction xs arbitrary: acc)
  case Nil
  then show ?case by simp
next
  case (Cons x xs)
  have step: "foldl tagSet_add acc (x # xs) = foldl tagSet_add (tagSet_add acc x) xs"
    by simp
  show ?case
  proof (cases "x \<in> set acc")
    case True
    then have "tagSet_add acc x = acc" by (simp add: tagSet_add_def)
    moreover have "filter (\<lambda>y. y \<notin> set acc) (removeAll x (first_seen xs))
        = filter (\<lambda>y. y \<notin> set acc) (first_seen xs)"
      using True by (auto simp: removeAll_filter_not_eq intro: filter_cong)
    ultimately show ?thesis using True unfolding step by (simp add: Cons.IH)
  next
    case False
    then have "tagSet_add acc x = acc @ [x]" by (simp add: tagSet_add_def)
    moreover have "filter (\<lambda>y. y \<notin> set (acc @ [x])) (first_seen xs)
        = filter (\<lambda>y. y \<notin> set acc) (removeAll x (first_seen xs))"
      by (auto simp: removeAll_filter_not_eq intro: filter_cong)
    ultimately show ?thesis using False unfolding step by (simp add: Cons.IH)
  qed
qed

lemma foldl_endpoint_tags:
  "foldl (\<lambda>tagSet e. foldl tagSet_add tagSet (e_tags e)) acc endpoints
     = foldl tagSet_add acc (concat (map e_tags endpoints))"
  by (induction endpoints arbitrary: acc) simp_all

lemma extractTags_first_seen:
  "extractTags endpoints =
     map (\<lambda>name. \<lparr> tg_name = Some name, tg_description = None \<rparr>)
       (first_seen (concat (map e_tags endpoints)))"
  unfolding extractTags_def foldl_endpoint_tags by (simp add: foldl_tagSet_add)

text \<open>
  C3 (counterexample). The claim says a declared but empty top-level tag list is replaced
  by the tags of the endpoints. The document \<open>empty_tag_list_doc\<close> declares \<^verbatim>\<open>tags: []\<close>
  and has an endpoint tagged \<^verbatim>\<open>pets\<close>; its ApiSpec has no tags.
\<close>

theorem empty_tag_list_counterexample:
  "d_tags empty_tag_list_doc = Some [] \<and>
   \<not> isl (normalize (Some empty_tag_list_doc)) \<and>
   a_tags (projr (normalize (Some empty_tag_list_doc))) = [] \<and>
   map e_tags (a_endpoints (projr (normalize (Some empty_tag_list_doc)))) = [[''pets'']]"
  by (simp add: example_defs normalize_defs)

text \<open>
  C3 (amended). The ApiSpec's tags are the document's declared top-level tag list whenever
  that list is present, also when it is empty; when it is absent they are the distinct
  tag names of the produced endpoints in first-seen order, each as a tag with a name only.
\<close>

theorem tags_resolution:
  assumes "normalize (Some spec) = Inr api"
  shows "(\<forall>declared. d_tags spec = Some declared \<longrightarrow> a_tags api = declared) \<and>
         (d_tags spec = None \<longrightarrow>
            a_tags api = map (\<lambda>name. \<lparr> tg_name = Some name, tg_description = None \<rparr>)
              (first_seen (concat (map e_tags (a_endpoints api)))))"
  using assms
  by (auto simp: normalize_def and_then_Inr deref_Inr extractTags_first_seen split: if_splits)

theorem tags_resolution_witness:
  "d_tags tagged_doc = None \<and>
   a_tags (projr (normalize (Some tagged_doc))) =
     [\<lparr> tg_name = Some ''b'', tg_description = None \<rparr>,
      \<lparr> tg_name = Some ''a'', tg_description = None \<rparr>,
      \<lparr> tg_name = Some ''c'', tg_description = None \<rparr>]"
proof -
  have es: "map e_tags (a_endpoints (projr (normalize (Some tagged_doc))))
      = [[''b'', ''a''], [''a'', ''c''], [''c'']]"
    by (simp add: example_defs normalize_defs)
  have none: "d_tags tagged_doc = None" by (simp add: example_defs)
  show ?thesis
    using tags_resolution [OF tagged_doc_normalizes] none by (simp add: es)
qed

text \<open>
  C4 (counterexample). The claim says every endpoint has a non-empty tag list, also when
  the operation declares an empty one. The operation of \<open>untagged_doc\<close> declares
  \<^verbatim>\<open>tags: []\<close>, and its endpoint has no tags.
\<close>

theorem empty_tags_counterexample:
  "\<not> isl (normalize (Some untagged_doc)) \<and>
   map e_tags (a_endpoints (projr (normalize (Some untagged_doc)))) = [[]]"
  by (simp add: example_defs normalize_defs)

text \<open>
  C4 (amended). Every endpoint comes from an operation of the document, found under the
  endpoint's path and method. When that operation has no \<open>tags\<close> field the endpoint's
  tags are \<^verbatim>\<open>["default"]\<close>; when it has one, the endpoint's tags are that list as it
  is, so they are non-empty unless the operation declares an empty list.
\<close>

theorem endpoint_tags_default:
  assumes "normalize (Some spec) = Inr api" and "e \<in> set (a_endpoints api)"
  shows "\<exists>pathItem operation.
     (e_path e, Some pathItem) \<in> set (or_empty (d_paths spec)) \<and>
     map_of (pi_operations pathItem) (e_method e) = Some operation \<and>
     e_tags e = (case op_tags operation of None \<Rightarrow> [''default''] | Some ts \<Rightarrow> ts)"
proof -
  from assms(1) have "parseEndpoints spec = Inr (a_endpoints api)"
    by (rule normalize_endpoints)
  from endpoint_origin [OF this assms(2)] obtain path pathItem mth operation
    where o: "(path, Some pathItem) \<in> set (or_empty (d_paths spec))" "mth \<in> set methods"
      "map_of (pi_operations pathItem) mth = Some operation"
      "operationEndpoint path (or_empty (pi_parameters pathItem)) mth operation = Inr e"
    by blast
  from operationEndpoint_fields [OF o(4)] have "e_path e = path" "e_method e = mth"
    "e_tags e = (case op_tags operation of None \<Rightarrow> [''default''] | Some ts \<Rightarrow> ts)"
    by simp_all
  with o show ?thesis by auto
qed

theorem endpoint_tags_default_witness:
  "normalize (Some pets_doc) = Inr (projr (normalize (Some pets_doc))) \<and>
   pets_endpoint \<in> set (a_endpoints (projr (normalize (Some pets_doc)))) \<and>
   e_tags pets_endpoint = [''default''] \<and>
   (\<exists>pathItem operation.
     (e_path pets_endpoint, Some pathItem) \<in> set (or_empty (d_paths pets_doc)) \<and>
     map_of (pi_operations pathItem) (e_method pets_endpoint) = Some operation \<and>
     e_tags pets_endpoint = (case op_tags operation of None \<Rightarrow> [''default''] | Some ts \<Rightarrow> ts))"
proof -
  have "e_tags pets_endpoint = [''default'']"
    by (simp add: pets_endpoint_def)
  then show ?thesis
    using endpoint_tags_default [of pets_doc "projr (normalize (Some pets_doc))" pets_endpoint]
      pets_doc_normalizes pets_doc_endpoints by simp
qed

subsection \<open>Errors of normalization\<close>

text \<open>
  C5. The claim says that no missing field makes normalization fail, and in particular
  that a document with an \<open>openapi\<close> root key and no \<open>info\<close> block normalizes. The parser
  does not: for the text \<^verbatim>\<open>{"openapi":"3.0.0"}\<close> the gate passes, and the read of
  \<^verbatim>\<open>spec.info.title\<close> at line 157 throws a TypeError, which is neither the ParseError nor
  the ValidationError.
\<close>

theorem missing_info_throws:
  "d_openapi bare_doc = Some ''3.0.0'' \<and> d_info bare_doc = None \<and>
   JSON_parse_example bare_text = Some (Some bare_doc) \<and>
   parseOpenApiSpec JSON_parse_example yaml_load_example (Text bare_text) = Inl TypeError \<and>
   TypeError \<noteq> ParseError \<and> TypeError \<noteq> ValidationError"
proof -
  have "normalize (Some bare_doc) = Inl TypeError"
    by (simp add: bare_doc_def normalize_defs)
  moreover have "JSON_parse_example bare_text = Some (Some bare_doc)"
    by (simp add: JSON_parse_example_def)
  ultimately show ?thesis
    by (simp add: parseOpenApiSpec_def bare_doc_def ParseError_def ValidationError_def)
qed

text \<open>For a parsed document that is a mapping the gate is as the specification has it:
  the ValidationError when neither key has a truthy value, and not otherwise.\<close>

lemma dialect_gate_mapping:
  "(\<not> truthy (d_openapi spec) \<and> \<not> truthy (d_swagger spec) \<longrightarrow>
      normalize (Some spec) = Inl ValidationError) \<and>
   (truthy (d_openapi spec) \<or> truthy (d_swagger spec) \<longrightarrow>
      normalize (Some spec) \<noteq> Inl ValidationError)"
proof (intro conjI impI)
  assume "\<not> truthy (d_openapi spec) \<and> \<not> truthy (d_swagger spec)"
  then show "normalize (Some spec) = Inl ValidationError"
    by (simp add: normalize_def deref_def)
next
  assume t: "truthy (d_openapi spec) \<or> truthy (d_swagger spec)"
  show "normalize (Some spec) \<noteq> Inl ValidationError"
  proof
    assume "normalize (Some spec) = Inl ValidationError"
    with t have "ValidationError = TypeError"
      by (auto simp: normalize_def and_then_Inl deref_Inl deref_Inr dest!: traverse_Inl
          dest: parseEndpoints_error split: if_splits)
    then show False by (simp add: ValidationError_def)
  qed
qed

text \<open>
  C6. The claim says that every parsed document whose root has neither an \<open>openapi\<close> nor a
  \<open>swagger\<close> key fails with the ValidationError. The parser does not when the parsed
  document is \<^verbatim>\<open>undefined\<close> or \<^verbatim>\<open>null\<close>: for the empty text (\<^verbatim>\<open>JSON.parse\<close> throws,
  \<^verbatim>\<open>yaml.load\<close> returns \<^verbatim>\<open>undefined\<close>) and for the text \<^verbatim>\<open>null\<close>, the read of \<^verbatim>\<open>spec.openapi\<close>
  at line 104 throws a TypeError before the gate can throw its own error.
\<close>

theorem null_root_throws:
  "JSON_parse_example [] = None \<and> yaml_load_example [] = Some None \<and>
   parseOpenApiSpec JSON_parse_example yaml_load_example (Text []) = Inl TypeError \<and>
   JSON_parse_example ''null'' = Some None \<and>
   parseOpenApiSpec JSON_parse_example yaml_load_example (Text ''null'') = Inl TypeError \<and>
   TypeError \<noteq> ValidationError"
  by (simp add: parseOpenApiSpec_def normalize_def deref_def library_defs ValidationError_def)

subsection \<open>Endpoints\<close>

lemma dash_split:
  "CHR ''-'' \<notin> set m \<Longrightarrow> CHR ''-'' \<notin> set m' \<Longrightarrow> m @ ''-'' @ p = m' @ ''-'' @ p'
     \<Longrightarrow> m = m' \<and> p = p'"
proof (induction m arbitrary: m')
  case Nil
  then show ?case by (cases m') auto
next
  case (Cons c cs)
  then show ?case by (cases m') auto
qed

lemma methods_no_dash: "m \<in> set methods \<Longrightarrow> CHR ''-'' \<notin> set m"
  by (auto simp: methods_def)

lemma distinct_methods: "distinct methods"
  by (simp add: methods_def)

lemma map_map_filter:
  assumes "\<And>x y. x \<in> set xs \<Longrightarrow> f x = Some y \<Longrightarrow> g y = h x"
  shows "map g (List.map_filter f xs) = map h (filter (\<lambda>x. f x \<noteq> None) xs)"
  using assms by (induction xs) (auto simp: List.map_filter_def)

lemma pathEndpoints_pairs:
  assumes "pathEndpoints path pathItem = Inr es"
  shows "map (\<lambda>e. (e_path e, e_method e)) es
     = map (Pair path) (filter (\<lambda>m. map_of (pi_operations pathItem) m \<noteq> None) methods)"
proof -
  let ?f = "\<lambda>m. case map_of (pi_operations pathItem) m of None \<Rightarrow> None
        | Some operation \<Rightarrow> Some (m, operation)"
  from assms have t: "traverse (\<lambda>(m, operation).
        operationEndpoint path (or_empty (pi_parameters pathItem)) m operation)
      (List.map_filter ?f methods) = Inr es"
    by (simp add: pathEndpoints_def Let_def)
  have "map (\<lambda>e. (e_path e, e_method e)) es
      = map (\<lambda>(m, operation). (path, m)) (List.map_filter ?f methods)"
    by (rule traverse_map_eq [OF t]) (auto dest: operationEndpoint_fields(2,3))
  also have "\<dots> = map (Pair path) (filter (\<lambda>m. ?f m \<noteq> None) methods)"
    by (rule map_map_filter) (auto split: option.splits)
  also have "(\<lambda>m. ?f m \<noteq> None) = (\<lambda>m. map_of (pi_operations pathItem) m \<noteq> None)"
    by (auto split: option.splits)
  finally show ?thesis .
qed

lemma parseEndpoints_pairs:
  assumes "parseEndpoints spec = Inr es"
  shows "map (\<lambda>e. (e_path e, e_method e)) es = operation_pairs (or_empty (d_paths spec))"
proof -
  from assms obtain pushed where
    t: "traverse (\<lambda>(path, pathItem). and_then (deref pathItem) (pathEndpoints path))
          (or_empty (d_paths spec)) = Inr pushed"
    and es: "es = concat pushed"
    by (auto simp: parseEndpoints_def and_then_Inr)
  have "map (map (\<lambda>e. (e_path e, e_method e))) pushed
      = map (\<lambda>(path, pathItem). case pathItem of None \<Rightarrow> []
          | Some item \<Rightarrow> map (Pair path)
              (filter (\<lambda>m. map_of (pi_operations item) m \<noteq> None) methods))
          (or_empty (d_paths spec))"
    by (rule traverse_map_eq [OF t])
      (auto simp: and_then_Inr deref_Inr pathEndpoints_pairs simp del: not_None_eq)
  then show ?thesis by (simp add: es map_concat operation_pairs_def)
qed

lemma set_operation_pairs:
  "set (operation_pairs ps) = {(path, method). method \<in> set methods \<and>
      (\<exists>pathItem operation. (path, Some pathItem) \<in> set ps \<and>
         map_of (pi_operations pathItem) method = Some operation)}"
  by (auto simp: operation_pairs_def split: option.splits)

lemma distinct_operation_pairs:
  "distinct (map fst ps) \<Longrightarrow> distinct (operation_pairs ps)"
proof (induction ps)
  case Nil
  then show ?case by (simp add: operation_pairs_def)
next
  case (Cons a ps)
  obtain path pathItem where a: "a = (path, pathItem)" by (cases a)
  let ?here = "case pathItem of None \<Rightarrow> []
      | Some item \<Rightarrow> map (Pair path)
          (filter (\<lambda>m. map_of (pi_operations item) m \<noteq> None) methods)"
  have split: "operation_pairs (a # ps) = ?here @ operation_pairs ps"
    by (simp add: operation_pairs_def a del: not_None_eq)
  have "distinct ?here"
    by (simp add: distinct_map distinct_methods inj_on_def split: option.splits)
  moreover have "distinct (operation_pairs ps)" using Cons by simp
  moreover have "set ?here \<inter> set (operation_pairs ps) = {}"
    using Cons.prems a by (force simp: set_operation_pairs split: option.splits)
  ultimately show ?case unfolding split distinct_append by blast
qed

lemma endpoint_id_method:
  assumes "parseEndpoints spec = Inr es" and "e \<in> set es"
  shows "e_id e = e_method e @ ''-'' @ e_path e" and "e_method e \<in> set methods"
proof -
  from endpoint_origin [OF assms] obtain path pathItem mth operation
    where o: "(path, Some pathItem) \<in> set (or_empty (d_paths spec))" "mth \<in> set methods"
      "map_of (pi_operations pathItem) mth = Some operation"
      "operationEndpoint path (or_empty (pi_parameters pathItem)) mth operation = Inr e"
    by blast
  from operationEndpoint_fields(1,2,3) [OF o(4)] o(2)
  show "e_id e = e_method e @ ''-'' @ e_path e" and "e_method e \<in> set methods"
    by simp_all
qed

text \<open>
  C7. For a document whose path mapping has N distinct pairs of a path template and a
  method of the enumeration that bear an operation object, the ApiSpec has exactly N
  endpoints; their identifiers \<^verbatim>\<open><method>-<path>\<close> are pairwise distinct; every endpoint's
  method is one of the enumeration, so an entry under another key yields none. The keys of
  a JavaScript object are distinct, which is the hypothesis on the path mapping.
\<close>

theorem endpoint_count_and_ids:
  assumes "normalize (Some spec) = Inr api" and "distinct (map fst (or_empty (d_paths spec)))"
  shows "length (a_endpoints api) =
      card {(path, method). method \<in> set methods \<and>
        (\<exists>pathItem operation. (path, Some pathItem) \<in> set (or_empty (d_paths spec)) \<and>
           map_of (pi_operations pathItem) method = Some operation)} \<and>
    distinct (map e_id (a_endpoints api)) \<and>
    (\<forall>e \<in> set (a_endpoints api). e_method e \<in> set methods \<and>
        e_id e = e_method e @ ''-'' @ e_path e)"
proof -
  let ?es = "a_endpoints api"
  let ?ps = "operation_pairs (or_empty (d_paths spec))"
  have es: "parseEndpoints spec = Inr ?es" using assms(1) by (rule normalize_endpoints)
  note pairs = parseEndpoints_pairs [OF es]
  have d: "distinct ?ps" using assms(2) by (rule distinct_operation_pairs)
  have "length ?es = length ?ps"
    using pairs by (metis length_map)
  also have "\<dots> = card (set ?ps)" using d by (simp add: distinct_card)
  finally have count: "length ?es = card (set ?ps)" .
  have ids: "map e_id ?es = map (\<lambda>(p, m). m @ ''-'' @ p) ?ps"
  proof -
    have "map e_id ?es = map ((\<lambda>(p, m). m @ ''-'' @ p) \<circ> (\<lambda>e. (e_path e, e_method e))) ?es"
      by (rule map_cong) (simp_all add: endpoint_id_method(1) [OF es])
    then show ?thesis by (simp add: pairs [symmetric])
  qed
  have inj: "inj_on (\<lambda>(p, m). m @ ''-'' @ p) (set ?ps)"
  proof (rule inj_onI)
    fix x y assume x: "x \<in> set ?ps" and y: "y \<in> set ?ps"
      and eq: "(case x of (p, m) \<Rightarrow> m @ ''-'' @ p) = (case y of (p, m) \<Rightarrow> m @ ''-'' @ p)"
    obtain p m p' m' where xy: "x = (p, m)" "y = (p', m')" by (cases x, cases y)
    from x y xy have "m \<in> set methods" "m' \<in> set methods"
      by (auto simp: set_operation_pairs)
    then have "CHR ''-'' \<notin> set m" "CHR ''-'' \<notin> set m'" by (auto dest: methods_no_dash)
    with eq xy have "m = m' \<and> p = p'" using dash_split [of m m' p p'] by simp
    with xy show "x = y" by simp
  qed
  have "distinct (map e_id ?es)" unfolding ids using d inj by (simp add: distinct_map)
  with count endpoint_id_method [OF es] show ?thesis
    by (simp add: set_operation_pairs)
qed

theorem endpoint_count_and_ids_witness:
  "distinct (map fst (or_empty (d_paths tagged_doc))) \<and>
   card {(path, method). method \<in> set methods \<and>
        (\<exists>pathItem operation. (path, Some pathItem) \<in> set (or_empty (d_paths tagged_doc)) \<and>
           map_of (pi_operations pathItem) method = Some operation)} = 3 \<and>
   map e_id (a_endpoints (projr (normalize (Some tagged_doc))))
     = [''get-/x'', ''post-/x'', ''delete-/y''] \<and>
   distinct (map e_id (a_endpoints (projr (normalize (Some tagged_doc)))))"
proof -
  have d: "distinct (map fst (or_empty (d_paths tagged_doc)))"
    by (simp add: example_defs or_empty_def)
  have ids: "map e_id (a_endpoints (projr (normalize (Some tagged_doc))))
      = [''get-/x'', ''post-/x'', ''delete-/y'']"
    by (simp add: example_defs normalize_defs)
  then have "length (a_endpoints (projr (normalize (Some tagged_doc)))) = 3"
    by (metis length_map list.size(3) list.size(4) One_nat_def Suc_eq_plus1 numeral_3_eq_3)
  then show ?thesis
    using endpoint_count_and_ids [OF tagged_doc_normalizes d] d ids by simp
qed

subsection \<open>The entry point\<close>

text \<open>
  C8. Normalization is deterministic: two runs on the same text, with the same library
  parsers, give equal results, field for field. The source reads no clock, no random
  source and no state outside its argument, so the embedding is a function of the text and
  of the two library parsers alone.
\<close>

theorem normalization_deterministic:
  assumes "parseOpenApiSpec JSON_parse yaml_load (Text t) = first_run"
    and "parseOpenApiSpec JSON_parse yaml_load (Text t) = second_run"
  shows "first_run = second_run"
  using assms by simp

theorem normalization_deterministic_witness:
  "parseOpenApiSpec JSON_parse_example yaml_load_example (Text minimal_text)
     = normalize (Some minimal_doc)"
proof -
  have "JSON_parse_example minimal_text = Some (Some minimal_doc)"
    by (simp add: library_defs)
  then have "parseOpenApiSpec JSON_parse_example yaml_load_example (Text minimal_text)
      = normalize (Some minimal_doc)"
    by (simp add: parseOpenApiSpec_def)
  then show ?thesis
    using normalization_deterministic [of JSON_parse_example yaml_load_example minimal_text
      "parseOpenApiSpec JSON_parse_example yaml_load_example (Text minimal_text)"
      "normalize (Some minimal_doc)"]
    by simp
qed

lemma nan_doc_stringify: "JSON_stringify_example (Some nan_doc) = nan_text"
  by (simp add: JSON_stringify_example_def)

lemma nan_text_parse: "JSON_parse_example nan_text = Some (Some null_doc)"
  by (simp add: library_defs)

lemma example_doc_parameters:
  "map (\<lambda>e. map p_example (e_parameters e)) (a_endpoints (projr (normalize (Some (example_doc v)))))
     = [[Some v]]"
  by (simp add: example_doc_def minimal_doc_def bare_doc_def no_info_def no_operation_def
      normalize_defs)

text \<open>
  C10 (counterexample). The claim says that for every object input the result equals that
  of normalizing the object's strict-JSON serialization. The object \<open>nan_doc\<close> has a
  parameter whose example is \<^verbatim>\<open>NaN\<close>. On the object path the example is copied (line 175)
  and is \<^verbatim>\<open>NaN\<close> in the result; \<^verbatim>\<open>JSON.stringify\<close> writes it as \<^verbatim>\<open>null\<close>, so on the text path
  the example is \<^verbatim>\<open>null\<close>.
\<close>

theorem nan_object_counterexample:
  "JSON_stringify_example (Some nan_doc) = nan_text \<and>
   map (\<lambda>e. map p_example (e_parameters e)) (a_endpoints (projr
     (parseOpenApiSpec JSON_parse_example yaml_load_example (Object (Some nan_doc)))))
     = [[Some JNaN]] \<and>
   map (\<lambda>e. map p_example (e_parameters e)) (a_endpoints (projr
     (parseOpenApiSpec JSON_parse_example yaml_load_example
        (Text (JSON_stringify_example (Some nan_doc))))))
     = [[Some JNull]] \<and>
   parseOpenApiSpec JSON_parse_example yaml_load_example (Object (Some nan_doc)) \<noteq>
   parseOpenApiSpec JSON_parse_example yaml_load_example
     (Text (JSON_stringify_example (Some nan_doc)))"
proof -
  have object_run: "parseOpenApiSpec JSON_parse_example yaml_load_example (Object (Some nan_doc))
      = normalize (Some (example_doc JNaN))"
    by (simp add: parseOpenApiSpec_def nan_doc_def)
  have text_run: "parseOpenApiSpec JSON_parse_example yaml_load_example
        (Text (JSON_stringify_example (Some nan_doc)))
      = normalize (Some (example_doc JNull))"
    by (simp add: parseOpenApiSpec_def nan_doc_stringify nan_text_parse null_doc_def)
  have "normalize (Some (example_doc JNaN)) \<noteq> normalize (Some (example_doc JNull))"
  proof
    assume "normalize (Some (example_doc JNaN)) = normalize (Some (example_doc JNull))"
    then have "[[Some JNaN]] = [[Some JNull]]"
      using example_doc_parameters [of JNaN] example_doc_parameters [of JNull] by simp
    then show False by simp
  qed
  then show ?thesis
    unfolding object_run text_run by (simp add: nan_doc_stringify example_doc_parameters)
qed

text \<open>
  C10 (amended). The entry point accepts an object. For every object input the parse phase
  is skipped: the result does not depend on the library parsers and is never the
  ParseError. The dialect gate applies. And whenever \<^verbatim>\<open>JSON.parse\<close> reads the object's
  strict-JSON serialization back as that same object, the result equals the result of
  normalizing that serialization.
\<close>

theorem object_input:
  "parseOpenApiSpec JSON_parse yaml_load (Object obj)
     = parseOpenApiSpec JSON_parse' yaml_load' (Object obj) \<and>
   parseOpenApiSpec JSON_parse yaml_load (Object obj) \<noteq> Inl ParseError \<and>
   (obj = Some spec \<and> \<not> truthy (d_openapi spec) \<and> \<not> truthy (d_swagger spec) \<longrightarrow>
      parseOpenApiSpec JSON_parse yaml_load (Object obj) = Inl ValidationError) \<and>
   (JSON_parse (JSON_stringify obj) = Some obj \<longrightarrow>
      parseOpenApiSpec JSON_parse yaml_load (Object obj) =
      parseOpenApiSpec JSON_parse yaml_load (Text (JSON_stringify obj)))"
proof (intro conjI impI)
  show "parseOpenApiSpec JSON_parse yaml_load (Object obj)
     = parseOpenApiSpec JSON_parse' yaml_load' (Object obj)"
    by (simp add: parseOpenApiSpec_def)
  show "parseOpenApiSpec JSON_parse yaml_load (Object obj) \<noteq> Inl ParseError"
  proof
    assume "parseOpenApiSpec JSON_parse yaml_load (Object obj) = Inl ParseError"
    then have "normalize obj = Inl ParseError" by (simp add: parseOpenApiSpec_def)
    then have "ParseError = ValidationError \<or> ParseError = TypeError" by (rule normalize_error)
    then show False by (simp add: ParseError_def ValidationError_def)
  qed
next
  assume "obj = Some spec \<and> \<not> truthy (d_openapi spec) \<and> \<not> truthy (d_swagger spec)"
  then show "parseOpenApiSpec JSON_parse yaml_load (Object obj) = Inl ValidationError"
    by (simp add: parseOpenApiSpec_def normalize_def deref_def)
next
  assume "JSON_parse (JSON_stringify obj) = Some obj"
  then show "parseOpenApiSpec JSON_parse yaml_load (Object obj) =
      parseOpenApiSpec JSON_parse yaml_load (Text (JSON_stringify obj))"
    by (simp add: parseOpenApiSpec_def)
qed

theorem object_input_witness:
  "JSON_parse_example (JSON_stringify_example (Some minimal_doc)) = Some (Some minimal_doc) \<and>
   parseOpenApiSpec JSON_parse_example yaml_load_example (Object (Some minimal_doc)) =
   parseOpenApiSpec JSON_parse_example yaml_load_example
     (Text (JSON_stringify_example (Some minimal_doc))) \<and>
   \<not> truthy (d_openapi (minimal_doc \<lparr> d_openapi := None \<rparr>)) \<and>
   \<not> truthy (d_swagger (minimal_doc \<lparr> d_openapi := None \<rparr>)) \<and>
   parseOpenApiSpec JSON_parse_example yaml_load_example
     (Object (Some (minimal_doc \<lparr> d_openapi := None \<rparr>))) = Inl ValidationError"
proof -
  have str: "JSON_stringify_example (Some minimal_doc) = minimal_text"
    by (simp add: JSON_stringify_example_def example_defs)
  have parsed: "JSON_parse_example (JSON_stringify_example (Some minimal_doc))
      = Some (Some minimal_doc)"
    unfolding str by (simp add: library_defs)
  have keyless: "\<not> truthy (d_openapi (minimal_doc \<lparr> d_openapi := None \<rparr>)) \<and>
      \<not> truthy (d_swagger (minimal_doc \<lparr> d_openapi := None \<rparr>))"
    by (simp add: minimal_doc_def bare_doc_def truthy_def)
  have same: "parseOpenApiSpec JSON_parse_example yaml_load_example (Object (Some minimal_doc)) =
      parseOpenApiSpec JSON_parse_example yaml_load_example
        (Text (JSON_stringify_example (Some minimal_doc)))"
    using object_input [of JSON_parse_example yaml_load_example "Some minimal_doc" _ _ _
        JSON_stringify_example] parsed
    by blast
  have gate: "parseOpenApiSpec JSON_parse_example yaml_load_example
      (Object (Some (minimal_doc \<lparr> d_openapi := None \<rparr>))) = Inl ValidationError"
    using object_input [of JSON_parse_example yaml_load_example
        "Some (minimal_doc \<lparr> d_openapi := None \<rparr>)" _ _ "minimal_doc \<lparr> d_openapi := None \<rparr>"] keyless
    by blast
  from parsed keyless same gate show ?thesis by blast
qed

end
